theory Spec2Isabelle
  imports Main "HOL-Library.Monad_Syntax"
begin

section \<open>Data model\<close>

text \<open>
  The agent of \<^verbatim>\<open>src/agents/my_awesome_agent.py\<close> imports its data types from
  \<^verbatim>\<open>agents.structs\<close> and its base class from \<^verbatim>\<open>agents.agent\<close>. Neither module is
  part of the sources at hand, so the types below follow the specification's data model.
\<close>

text \<open>
  Modelled from the spec: the enum \<^verbatim>\<open>GameState\<close> of \<^verbatim>\<open>agents.structs\<close> is missing. The
  spec names \<^verbatim>\<open>NOT_PLAYED\<close>, \<^verbatim>\<open>GAME_OVER\<close> and \<^verbatim>\<open>WIN\<close> and leaves the "other
  in-progress variants" to the game protocol; they are the family \<open>IN_PROGRESS n\<close>.
\<close>

datatype GameState = NOT_PLAYED | GAME_OVER | WIN | IN_PROGRESS nat

text \<open>
  Modelled from the spec: the enum \<^verbatim>\<open>GameAction\<close> of \<^verbatim>\<open>agents.structs\<close> is missing. It has
  exactly one reserved kind, \<^verbatim>\<open>RESET\<close>; the other kinds are the family \<open>ACTION n\<close>.
  Every kind has one of two shapes.
\<close>

datatype GameAction = RESET | ACTION nat

datatype action_shape = SimpleAction | ComplexAction

text \<open>Python data that \<^verbatim>\<open>json\<close> can write: the value of a JSON document.\<close>

datatype json =
  JNull
  | JBool bool
  | JInt int
  | JStr string
  | JArr "json list"
  | JObj "(string \<times> json) list"

text \<open>
  Modelled from the spec: the class \<^verbatim>\<open>FrameData\<close> of \<^verbatim>\<open>agents.structs\<close> is missing. Its
  attributes are those the spec lists; the payload \<^verbatim>\<open>frame\<close> is opaque game data, the
  score is numeric (an integer here).
\<close>

record FrameData =
  game_id :: string
  frame :: json
  state :: GameState
  score :: int
  guid :: string
  full_reset :: bool
  available_actions :: "GameAction list"

text \<open>
  Modelled from the spec: \<^verbatim>\<open>FrameData.is_empty\<close> is missing; it "reports whether the
  payload carries no content".
\<close>

definition is_empty :: "FrameData \<Rightarrow> bool" where
  "is_empty f = (frame f = JArr [])"

text \<open>
  What \<^verbatim>\<open>agents.structs\<close> declares about the two enums and this file cannot see: the
  members in definition order (the order in which Python iterates an enum), the shape of
  every action kind and the \<^verbatim>\<open>.value\<close> of every member (strings, as the spec's record
  format has them). The operations take it as a parameter.
\<close>

record structs =
  game_actions :: "GameAction list"
  action_type :: "GameAction \<Rightarrow> action_shape"
  action_value :: "GameAction \<Rightarrow> string"
  game_states :: "GameState list"
  state_value :: "GameState \<Rightarrow> string"

text \<open>
  Modelled from the spec: \<^verbatim>\<open>GameAction.is_simple\<close> and \<^verbatim>\<open>GameAction.is_complex\<close> are
  missing. An action is "a tagged value of one of two shapes", simple or complex, and
  the two methods report the shape of the kind.
\<close>

definition is_simple :: "structs \<Rightarrow> GameAction \<Rightarrow> bool" where
  "is_simple st a = (action_type st a = SimpleAction)"

definition is_complex :: "structs \<Rightarrow> GameAction \<Rightarrow> bool" where
  "is_complex st a = (action_type st a = ComplexAction)"

text \<open>
  The members of a Python enum are singletons: \<^verbatim>\<open>action.reasoning = ...\<close> and
  \<^verbatim>\<open>action.set_data(...)\<close> write attributes of the one shared member object. The
  attributes of every member are therefore part of the state.
\<close>

datatype reasoning =
  NoReasoning
  | Text string
  | Structured "(string \<times> string) list"

record attrs =
  reasoning :: reasoning
  action_data :: "(int \<times> int) option"

text \<open>What a file of the frames directory holds after a write.\<close>

datatype file_content = Document json | Truncated

text \<open>The exceptions of the decision engine.\<close>

datatype exn = IndexError | ValueError | ValidationError

text \<open>The exceptions of the storage; the string is the text \<^verbatim>\<open>str(e)\<close>.\<close>

datatype io_error = OSError string | TypeError string

text \<open>
  How the storage answers a write: \<open>OpenFails e\<close> when \<^verbatim>\<open>open(filepath, 'w')\<close> raises
  \<open>e\<close>, \<open>DumpFails e\<close> when \<^verbatim>\<open>json.dump\<close> raises \<open>e\<close> after the file was opened
  (and so created or emptied).
\<close>

datatype io_fault = OpenFails io_error | DumpFails io_error

text \<open>
  The state the agent's methods read and write: the attributes of \<^verbatim>\<open>self\<close>
  (\<open>agent_game_id\<close>, \<open>frames\<close>, \<open>frames_dir\<close>), the process-wide generator of the
  \<^verbatim>\<open>random\<close> module (a sequence of raw draws and the position reached in it), the
  attributes of the enum members, the clock (what \<^verbatim>\<open>int(time.time() * 1000)\<close> evaluates
  to), the storage and the standard output.
\<close>

record world =
  agent_game_id :: string
  frames :: "FrameData list"
  frames_dir :: string
  rng_draws :: "nat \<Rightarrow> nat"
  rng_pos :: nat
  member_attrs :: "GameAction \<Rightarrow> attrs"
  clock_ms :: int
  storage_fault :: "string \<Rightarrow> io_fault option"
  files :: "string \<Rightarrow> file_content option"
  stdout :: "string list"

section \<open>The random module\<close>

text \<open>
  One draw below \<open>n\<close>: the next raw draw reduced to \<open>{0..<n}\<close>. The raw draws are
  arbitrary, so every outcome below \<open>n\<close> is possible. Every draw advances the generator.
\<close>

definition randbelow :: "world \<Rightarrow> nat \<Rightarrow> nat \<times> world" where
  "randbelow w n = (rng_draws w (rng_pos w) mod n, w\<lparr>rng_pos := Suc (rng_pos w)\<rparr>)"

text \<open>\<^verbatim>\<open>random.choice(seq)\<close> raises \<^verbatim>\<open>IndexError\<close> on an empty sequence.\<close>

definition random_choice :: "world \<Rightarrow> 'a list \<Rightarrow> exn + ('a \<times> world)" where
  "random_choice w xs =
     (if xs = [] then Inl IndexError
      else (case randbelow w (length xs) of (i, w') \<Rightarrow> Inr (xs ! i, w')))"

text \<open>\<^verbatim>\<open>random.randint(a, b)\<close> returns \<open>a \<le> N \<le> b\<close> and raises on an empty range.\<close>

definition randint :: "world \<Rightarrow> int \<Rightarrow> int \<Rightarrow> exn + (int \<times> world)" where
  "randint w a b =
     (if b < a then Inl ValueError
      else (case randbelow w (nat (b - a + 1)) of (r, w') \<Rightarrow> Inr (a + int r, w')))"

section \<open>Attaching reasoning and data to an action\<close>

definition set_reasoning :: "world \<Rightarrow> GameAction \<Rightarrow> reasoning \<Rightarrow> world" where
  "set_reasoning w a r =
     w\<lparr>member_attrs := (member_attrs w)(a := (member_attrs w a)\<lparr>reasoning := r\<rparr>)\<rparr>"

definition GRID_MAX :: int where
  "GRID_MAX = 63"

text \<open>
  Modelled from the spec: \<^verbatim>\<open>GameAction.set_data\<close> is missing. It attaches the payload of
  a complex action, two integer coordinates bounded to the grid \<open>[0, GRID_MAX]\<close>; a
  payload outside the declared schema is a hard failure for the caller.
\<close>

definition set_data :: "world \<Rightarrow> GameAction \<Rightarrow> int \<Rightarrow> int \<Rightarrow> exn + world" where
  "set_data w a x y =
     (if 0 \<le> x \<and> x \<le> GRID_MAX \<and> 0 \<le> y \<and> y \<le> GRID_MAX
      then Inr (w\<lparr>member_attrs := (member_attrs w)(a := (member_attrs w a)\<lparr>action_data := Some (x, y)\<rparr>)\<rparr>)
      else Inl ValidationError)"

section \<open>Decision engine\<close>

text \<open>
  \<^verbatim>\<open>is_done\<close>: \<^verbatim>\<open>any([latest_frame.state is GameState.WIN])\<close>; the test for
  \<^verbatim>\<open>GAME_OVER\<close> is commented out in the source. The method reads nothing but the latest
  frame, writes nothing and has no raising statement.
\<close>

definition is_done :: "world \<Rightarrow> FrameData list \<Rightarrow> FrameData \<Rightarrow> exn + (bool \<times> world)" where
  "is_done w frames_arg latest_frame = Inr (list_ex (\<lambda>b. b) [state latest_frame = WIN], w)"

text \<open>
  \<^verbatim>\<open>choose_action\<close>: the reset branch, else a random choice among the members of
  \<^verbatim>\<open>GameAction\<close> but \<^verbatim>\<open>RESET\<close>; then the reasoning (simple kinds) or two coordinates
  drawn by \<^verbatim>\<open>random.randint(0, 63)\<close>, \<^verbatim>\<open>x\<close> first, and the structured reasoning (complex
  kinds). The result is the chosen member and the state after the call.
\<close>

definition choose_action ::
  "structs \<Rightarrow> world \<Rightarrow> FrameData list \<Rightarrow> FrameData \<Rightarrow> exn + (GameAction \<times> world)" where
  "choose_action st w frames_arg latest_frame =
     (case (if state latest_frame \<in> set [NOT_PLAYED, GAME_OVER] then Inr (RESET, w)
            else random_choice w (filter (\<lambda>a. a \<noteq> RESET) (game_actions st))) of
        Inl e \<Rightarrow> Inl e
      | Inr (action, w1) \<Rightarrow>
          if is_simple st action then
            Inr (action, set_reasoning w1 action (Text (''RNG told me to pick '' @ action_value st action)))
          else if is_complex st action then
            (case randint w1 0 63 of
               Inl e \<Rightarrow> Inl e
             | Inr (x, w2) \<Rightarrow>
                 (case randint w2 0 63 of
                    Inl e \<Rightarrow> Inl e
                  | Inr (y, w3) \<Rightarrow>
                      (case set_data w3 action x y of
                         Inl e \<Rightarrow> Inl e
                       | Inr w4 \<Rightarrow>
                           Inr (action, set_reasoning w4 action
                                  (Structured [(''desired_action'', action_value st action),
                                               (''my_reason'', ''RNG said so!'')])))))
          else Inr (action, w1))"

section \<open>Formatting integers and joining paths\<close>

definition digit_char :: "nat \<Rightarrow> char" where
  "digit_char d = ''0123456789'' ! d"

text \<open>\<^verbatim>\<open>str(n)\<close> for a natural number: its decimal digits, most significant first.\<close>

fun show_nat :: "nat \<Rightarrow> string" where
  "show_nat n =
     (if n < 10 then [digit_char n] else show_nat (n div 10) @ [digit_char (n mod 10)])"

text \<open>\<^verbatim>\<open>str(i)\<close> for an integer, as an f-string field \<^verbatim>\<open>{i}\<close> prints it.\<close>

definition show_int :: "int \<Rightarrow> string" where
  "show_int i = (if i < 0 then CHR ''-'' # show_nat (nat (- i)) else show_nat (nat i))"

definition zfill :: "nat \<Rightarrow> string \<Rightarrow> string" where
  "zfill width s = replicate (width - length s) CHR ''0'' @ s"

text \<open>
  The field \<^verbatim>\<open>{i:04d}\<close>: zeros fill the digits up to a width of four characters, and
  the sign of a negative number counts as one of the four (\<^verbatim>\<open>-005\<close>).
\<close>

definition format_04d :: "int \<Rightarrow> string" where
  "format_04d i =
     (if i < 0 then CHR ''-'' # zfill 3 (show_nat (nat (- i))) else zfill 4 (show_nat (nat i)))"

text \<open>\<^verbatim>\<open>os.path.join(a, b)\<close> of \<^verbatim>\<open>posixpath\<close>.\<close>

definition path_join :: "string \<Rightarrow> string \<Rightarrow> string" where
  "path_join a b =
     (if b \<noteq> [] \<and> hd b = CHR ''/'' then b
      else if a = [] \<or> last a = CHR ''/'' then a @ b
      else a @ ''/'' @ b)"

text \<open>The directory \<^verbatim>\<open>__init__\<close> stores in \<^verbatim>\<open>self.frames_dir\<close>.\<close>

definition init_frames_dir :: "string \<Rightarrow> string" where
  "init_frames_dir gid = path_join ''frames'' gid"

section \<open>Frame recorder\<close>

definition filename :: "int \<Rightarrow> int \<Rightarrow> string" where
  "filename frame_number timestamp =
     ''frame_'' @ format_04d frame_number @ ''_'' @ show_int timestamp @ ''.json''"

text \<open>The dictionary \<^verbatim>\<open>frame_data\<close>, keys in the order of the source.\<close>

definition frame_data :: "structs \<Rightarrow> FrameData \<Rightarrow> int \<Rightarrow> int \<Rightarrow> json" where
  "frame_data st f frame_number timestamp =
     JObj [(''frame_number'', JInt frame_number),
           (''timestamp'', JInt timestamp),
           (''game_id'', JStr (game_id f)),
           (''frame'', frame f),
           (''state'', JStr (state_value st (state f))),
           (''score'', JInt (score f)),
           (''guid'', JStr (guid f)),
           (''full_reset'', JBool (full_reset f)),
           (''available_actions'', JArr (map (\<lambda>a. JStr (action_value st a)) (available_actions f)))]"

text \<open>
  The body of the \<^verbatim>\<open>try\<close> up to the write: \<^verbatim>\<open>open(filepath, 'w')\<close> and
  \<^verbatim>\<open>json.dump(frame_data, f, indent=2)\<close>. A file that was written in full holds the
  document; the text layer of \<^verbatim>\<open>json\<close> is the standard library's and is not modelled.
  On an exception the result carries the state reached so far.
\<close>

definition open_and_dump :: "world \<Rightarrow> string \<Rightarrow> json \<Rightarrow> (io_error \<times> world) + world" where
  "open_and_dump w filepath d =
     (case storage_fault w filepath of
        Some (OpenFails e) \<Rightarrow> Inl (e, w)
      | Some (DumpFails e) \<Rightarrow> Inl (e, w\<lparr>files := (files w)(filepath \<mapsto> Truncated)\<rparr>)
      | None \<Rightarrow> Inr (w\<lparr>files := (files w)(filepath \<mapsto> Document d)\<rparr>))"

definition print :: "world \<Rightarrow> string \<Rightarrow> world" where
  "print w line = w\<lparr>stdout := stdout w @ [line]\<rparr>"

text \<open>\<^verbatim>\<open>str(e)\<close>, as the f-string field \<^verbatim>\<open>{e}\<close> prints the exception.\<close>

fun io_error_text :: "io_error \<Rightarrow> string" where
  "io_error_text (OSError msg) = msg"
| "io_error_text (TypeError msg) = msg"

text \<open>
  \<^verbatim>\<open>save_frame_to_file\<close>. Every exception of the \<^verbatim>\<open>try\<close> body is an \<^verbatim>\<open>Exception\<close> and
  is caught by the handler, which prints one line.
\<close>

definition save_frame_to_file :: "structs \<Rightarrow> world \<Rightarrow> FrameData \<Rightarrow> int \<Rightarrow> exn + world" where
  "save_frame_to_file st w f frame_number =
     (if \<not> is_empty f then
        (let timestamp = clock_ms w;
             filepath = path_join (frames_dir w) (filename frame_number timestamp);
             d = frame_data st f frame_number timestamp
         in case open_and_dump w filepath d of
              Inr w1 \<Rightarrow> Inr (print w1 (''Saved frame '' @ show_int frame_number @ '' to '' @ filepath))
            | Inl (e, w1) \<Rightarrow>
                Inr (print w1 (''Failed to save frame '' @ show_int frame_number @ '': '' @ io_error_text e)))
      else Inr w)"

text \<open>
  Modelled from the spec: \<^verbatim>\<open>Agent.append_frame\<close> of \<^verbatim>\<open>agents.agent\<close>, which the override
  calls first, is missing. FrameHistory is an ordered, append-only sequence and the
  driver supplies frames "via an append operation": the frame goes to the end of
  \<^verbatim>\<open>self.frames\<close>.
\<close>

definition Agent_append_frame :: "world \<Rightarrow> FrameData \<Rightarrow> world" where
  "Agent_append_frame w f = w\<lparr>frames := frames w @ [f]\<rparr>"

text \<open>\<^verbatim>\<open>append_frame\<close>: the parent's method, then the recorder at the index \<^verbatim>\<open>len(self.frames) - 1\<close>.\<close>

definition append_frame :: "structs \<Rightarrow> world \<Rightarrow> FrameData \<Rightarrow> exn + world" where
  "append_frame st w f =
     (let w1 = Agent_append_frame w f;
          frame_number = int (length (frames w1)) - 1
      in save_frame_to_file st w1 f frame_number)"

section \<open>Reading a record back\<close>

text \<open>The enum call \<^verbatim>\<open>GameState(v)\<close>: the member whose value is \<open>v\<close>.\<close>

definition state_of_value :: "structs \<Rightarrow> string \<Rightarrow> GameState option" where
  "state_of_value st v = find (\<lambda>s. state_value st s = v) (game_states st)"

definition action_of_value :: "structs \<Rightarrow> string \<Rightarrow> GameAction option" where
  "action_of_value st v = find (\<lambda>a. action_value st a = v) (game_actions st)"

record persisted =
  p_frame_number :: int
  p_timestamp :: int
  p_game_id :: string
  p_frame :: json
  p_state :: GameState
  p_score :: int
  p_guid :: string
  p_full_reset :: bool
  p_available_actions :: "GameAction list"

definition get_int :: "(string \<times> json) list \<Rightarrow> string \<Rightarrow> int option" where
  "get_int kv k = (case map_of kv k of Some (JInt i) \<Rightarrow> Some i | _ \<Rightarrow> None)"

definition get_str :: "(string \<times> json) list \<Rightarrow> string \<Rightarrow> string option" where
  "get_str kv k = (case map_of kv k of Some (JStr s) \<Rightarrow> Some s | _ \<Rightarrow> None)"

definition get_bool :: "(string \<times> json) list \<Rightarrow> string \<Rightarrow> bool option" where
  "get_bool kv k = (case map_of kv k of Some (JBool b) \<Rightarrow> Some b | _ \<Rightarrow> None)"

definition get_list :: "(string \<times> json) list \<Rightarrow> string \<Rightarrow> json list option" where
  "get_list kv k = (case map_of kv k of Some (JArr xs) \<Rightarrow> Some xs | _ \<Rightarrow> None)"

fun action_of_json :: "structs \<Rightarrow> json \<Rightarrow> GameAction option" where
  "action_of_json st (JStr v) = action_of_value st v"
| "action_of_json st _ = None"

text \<open>
  Modelled from the spec: the source has no reader of the records; the spec asks that a
  record be "parseable back into the same field values". The reader takes the fields of
  the record format out of the document and maps the values of the two enums back to
  their members.
\<close>

definition parse_record :: "structs \<Rightarrow> json \<Rightarrow> persisted option" where
  "parse_record st doc =
     (case doc of
        JObj kv \<Rightarrow>
          do {
            k \<leftarrow> get_int kv ''frame_number'';
            t \<leftarrow> get_int kv ''timestamp'';
            g \<leftarrow> get_str kv ''game_id'';
            p \<leftarrow> map_of kv ''frame'';
            sv \<leftarrow> get_str kv ''state'';
            s \<leftarrow> state_of_value st sv;
            sc \<leftarrow> get_int kv ''score'';
            gu \<leftarrow> get_str kv ''guid'';
            fr \<leftarrow> get_bool kv ''full_reset'';
            avs \<leftarrow> get_list kv ''available_actions'';
            acts \<leftarrow> those (map (action_of_json st) avs);
            Some \<lparr>p_frame_number = k, p_timestamp = t, p_game_id = g, p_frame = p,
                  p_state = s, p_score = sc, p_guid = gu, p_full_reset = fr,
                  p_available_actions = acts\<rparr>
          }
      | _ \<Rightarrow> None)"

section \<open>Reading numbers back from their text\<close>

text \<open>
  The value of a string of decimal digits and of an optionally signed one. The source
  never parses a file name; these functions serve to show that the formatting loses
  nothing.
\<close>

definition digits_value :: "string \<Rightarrow> nat" where
  "digits_value s = foldl (\<lambda>acc c. 10 * acc + (of_char c - 48)) 0 s"

definition int_value :: "string \<Rightarrow> int" where
  "int_value s =
     (if s \<noteq> [] \<and> hd s = CHR ''-'' then - int (digits_value (tl s)) else int (digits_value s))"

definition is_digit :: "char \<Rightarrow> bool" where
  "is_digit c = (48 \<le> (of_char c :: nat) \<and> (of_char c :: nat) \<le> 57)"

section \<open>Concrete inputs\<close>

text \<open>
  An enum declaration with one complex kind, a state of the process before the first
  frame, a frame in a given game state, and the state after one call of
  \<^verbatim>\<open>choose_action\<close> on an in-progress frame.
\<close>

definition example_structs :: structs where
  "example_structs =
     \<lparr>game_actions = [RESET, ACTION 1, ACTION 6],
      action_type = (\<lambda>a. if a = ACTION 6 then ComplexAction else SimpleAction),
      action_value = (\<lambda>a. case a of RESET \<Rightarrow> ''RESET'' | ACTION n \<Rightarrow> ''ACTION'' @ show_nat n),
      game_states = [NOT_PLAYED, IN_PROGRESS 0, WIN, GAME_OVER],
      state_value = (\<lambda>s. case s of NOT_PLAYED \<Rightarrow> ''NOT_PLAYED'' | GAME_OVER \<Rightarrow> ''GAME_OVER''
                          | WIN \<Rightarrow> ''WIN'' | IN_PROGRESS n \<Rightarrow> ''NOT_FINISHED'')\<rparr>"

definition example_world :: world where
  "example_world =
     \<lparr>agent_game_id = ''ls20'',
      frames = [],
      frames_dir = ''frames/ls20'',
      rng_draws = (\<lambda>i. 100 * i + 1),
      rng_pos = 0,
      member_attrs = (\<lambda>a. \<lparr>reasoning = NoReasoning, action_data = None\<rparr>),
      clock_ms = 1234,
      storage_fault = (\<lambda>p. None),
      files = Map.empty,
      stdout = []\<rparr>"

definition example_frame :: "GameState \<Rightarrow> FrameData" where
  "example_frame s =
     \<lparr>game_id = ''ls20'',
      frame = JArr [JArr [JArr [JInt 0, JInt 5]]],
      state = s,
      score = 3,
      guid = ''g-17'',
      full_reset = False,
      available_actions = [ACTION 1, ACTION 6]\<rparr>"

definition example_world_after :: world where
  "example_world_after =
     example_world
       \<lparr>rng_pos := 3,
        member_attrs := (member_attrs example_world)
          (ACTION 6 := \<lparr>reasoning = Structured [(''desired_action'', ''ACTION6''), (''my_reason'', ''RNG said so!'')],
                        action_data = Some (37, 9)\<rparr>)\<rparr>"

definition offline_world :: world where
  "offline_world =
     example_world\<lparr>storage_fault := (\<lambda>p. Some (OpenFails (OSError ''[Errno 13] Permission denied'')))\<rparr>"

definition example_empty_frame :: FrameData where
  "example_empty_frame = (example_frame NOT_PLAYED)\<lparr>frame := JArr []\<rparr>"



section \<open>Properties of the formatting\<close>

declare show_nat.simps [simp del]

lemma digit_char_val: "d < 10 \<Longrightarrow> of_char (digit_char d) = 48 + d"
proof -
  assume "d < 10"
  then have "d = 0 \<or> d = 1 \<or> d = 2 \<or> d = 3 \<or> d = 4
    \<or> d = 5 \<or> d = 6 \<or> d = 7 \<or> d = 8 \<or> d = 9"
    by arith
  then show ?thesis by (elim disjE) (simp_all add: digit_char_def)
qed

lemma is_digit_digit_char: "d < 10 \<Longrightarrow> is_digit (digit_char d)"
  by (simp add: is_digit_def digit_char_val)

lemma digits_value_snoc: "digits_value (s @ [c]) = 10 * digits_value s + (of_char c - 48)"
  by (simp add: digits_value_def)

lemma show_nat_small: "n < 10 \<Longrightarrow> show_nat n = [digit_char n]"
  by (subst show_nat.simps) simp

lemma show_nat_large: "\<not> n < 10 \<Longrightarrow> show_nat n = show_nat (n div 10) @ [digit_char (n mod 10)]"
  by (subst show_nat.simps) simp

lemma digits_value_show_nat: "digits_value (show_nat n) = n"
proof (induction n rule: show_nat.induct)
  case (1 n)
  show ?case
  proof (cases "n < 10")
    case True
    then show ?thesis by (simp add: show_nat_small digits_value_def digit_char_val)
  next
    case False
    then have "digits_value (show_nat n) = 10 * (n div 10) + n mod 10"
      using 1 by (simp add: show_nat_large digits_value_snoc digit_char_val)
    then show ?thesis by simp
  qed
qed

lemma show_nat_digits: "c \<in> set (show_nat n) \<Longrightarrow> is_digit c"
proof (induction n rule: show_nat.induct)
  case (1 n)
  show ?case
  proof (cases "n < 10")
    case True
    with 1(2) show ?thesis by (auto simp: show_nat_small is_digit_digit_char)
  next
    case False
    with 1 show ?thesis by (auto simp: show_nat_large is_digit_digit_char)
  qed
qed

lemma show_nat_nonempty: "show_nat n \<noteq> []"
  by (cases "n < 10") (simp_all add: show_nat_small show_nat_large)

lemma digits_value_zeros: "digits_value (replicate m CHR ''0'' @ s) = digits_value s"
  by (induction m) (simp_all add: digits_value_def)

lemma digits_value_zfill: "digits_value (zfill m (show_nat n)) = n"
  by (simp add: zfill_def digits_value_zeros digits_value_show_nat)

lemma zfill_digits: "c \<in> set (zfill m (show_nat n)) \<Longrightarrow> is_digit c"
  by (auto simp: zfill_def is_digit_def dest: show_nat_digits)

lemma zfill_nonempty: "zfill m (show_nat n) \<noteq> []"
  by (simp add: zfill_def show_nat_nonempty)

lemma hd_zfill_not_minus: "hd (zfill m (show_nat n)) \<noteq> CHR ''-''"
proof
  assume h: "hd (zfill m (show_nat n)) = CHR ''-''"
  have "hd (zfill m (show_nat n)) \<in> set (zfill m (show_nat n))"
    using zfill_nonempty by (rule hd_in_set)
  then have "is_digit (hd (zfill m (show_nat n)))" by (rule zfill_digits)
  with h show False by (simp add: is_digit_def)
qed

lemma int_value_format_04d: "int_value (format_04d i) = i"
  by (simp add: int_value_def format_04d_def digits_value_zfill zfill_nonempty hd_zfill_not_minus)

lemma format_04d_inj: "format_04d i = format_04d j \<Longrightarrow> i = j"
  by (metis int_value_format_04d)

lemma format_04d_chars: "c \<in> set (format_04d i) \<Longrightarrow> is_digit c \<or> c = CHR ''-''"
  by (auto simp: format_04d_def dest: zfill_digits split: if_splits)

lemma format_04d_no_underscore: "CHR ''_'' \<notin> set (format_04d i)"
  using format_04d_chars [of "CHR ''_''" i] by (auto simp: is_digit_def)

lemma append_sep_eq:
  "c \<notin> set xs \<Longrightarrow> c \<notin> set ys \<Longrightarrow> xs @ c # us = ys @ c # vs \<Longrightarrow> xs = ys"
proof (induction xs arbitrary: ys)
  case Nil
  then show ?case by (cases ys) auto
next
  case (Cons x xs)
  then show ?case by (cases ys) auto
qed

lemma filename_inj_number: "filename k1 t1 = filename k2 t2 \<Longrightarrow> k1 = k2"
proof -
  assume "filename k1 t1 = filename k2 t2"
  then have "format_04d k1 @ CHR ''_'' # (show_int t1 @ ''.json'')
           = format_04d k2 @ CHR ''_'' # (show_int t2 @ ''.json'')"
    by (simp add: filename_def)
  then have "format_04d k1 = format_04d k2"
    by (rule append_sep_eq [OF format_04d_no_underscore format_04d_no_underscore])
  then show ?thesis by (rule format_04d_inj)
qed

lemma filename_relative: "filename k t \<noteq> [] \<and> hd (filename k t) \<noteq> CHR ''/''"
  by (simp add: filename_def)

lemma path_join_filename_inj:
  "path_join d (filename k1 t1) = path_join d (filename k2 t2) \<Longrightarrow> filename k1 t1 = filename k2 t2"
  using filename_relative [of k1 t1] filename_relative [of k2 t2]
  by (auto simp: path_join_def split: if_splits)

section \<open>Properties of the decision engine\<close>

lemma randint_result:
  "randint w a b = Inr (x, w') \<Longrightarrow>
     a \<le> x \<and> x \<le> b \<and> x = a + int (rng_draws w (rng_pos w) mod nat (b - a + 1))
     \<and> w' = w\<lparr>rng_pos := Suc (rng_pos w)\<rparr>"
proof -
  assume h: "randint w a b = Inr (x, w')"
  then have ab: "a \<le> b" by (auto simp: randint_def split: if_splits)
  then have pos: "0 < nat (b - a + 1)" by simp
  have lt: "rng_draws w (rng_pos w) mod nat (b - a + 1) < nat (b - a + 1)"
    using pos by (rule mod_less_divisor)
  from h ab have x: "x = a + int (rng_draws w (rng_pos w) mod nat (b - a + 1))"
    and w': "w' = w\<lparr>rng_pos := Suc (rng_pos w)\<rparr>"
    by (auto simp: randint_def randbelow_def)
  from lt x ab have "a \<le> x \<and> x \<le> b" by linarith
  with x w' show ?thesis by simp
qed

lemma randint_returns:
  "a \<le> b \<Longrightarrow> randint w a b =
     Inr (a + int (rng_draws w (rng_pos w) mod nat (b - a + 1)), w\<lparr>rng_pos := Suc (rng_pos w)\<rparr>)"
  by (simp add: randint_def randbelow_def)

lemma random_choice_result:
  "random_choice w xs = Inr (x, w') \<Longrightarrow> x \<in> set xs \<and> w' = w\<lparr>rng_pos := Suc (rng_pos w)\<rparr>"
  by (auto simp: random_choice_def randbelow_def split: if_splits)

lemma set_data_in_range:
  "0 \<le> x \<Longrightarrow> x \<le> 63 \<Longrightarrow> 0 \<le> y \<Longrightarrow> y \<le> 63 \<Longrightarrow>
     set_data w a x y =
       Inr (w\<lparr>member_attrs := (member_attrs w)(a := (member_attrs w a)\<lparr>action_data := Some (x, y)\<rparr>)\<rparr>)"
  by (simp add: set_data_def GRID_MAX_def)

text \<open>The second half of \<^verbatim>\<open>choose_action\<close>: what is attached to the selected member.\<close>

lemma choose_action_simple:
  "is_simple st a \<Longrightarrow>
   (if state l \<in> set [NOT_PLAYED, GAME_OVER] then Inr (RESET, w)
    else random_choice w (filter (\<lambda>a. a \<noteq> RESET) (game_actions st))) = Inr (a, w1) \<Longrightarrow>
   choose_action st w h l =
     Inr (a, set_reasoning w1 a (Text (''RNG told me to pick '' @ action_value st a)))"
  by (simp add: choose_action_def)

lemma choose_action_complex:
  assumes "is_complex st a"
    and "(if state l \<in> set [NOT_PLAYED, GAME_OVER] then Inr (RESET, w)
          else random_choice w (filter (\<lambda>a. a \<noteq> RESET) (game_actions st))) = Inr (a, w1)"
  shows "choose_action st w h l =
     Inr (a, set_reasoning
               (w1\<lparr>rng_pos := Suc (Suc (rng_pos w1)),
                   member_attrs := (member_attrs w1)
                     (a := (member_attrs w1 a)
                        \<lparr>action_data := Some (int (rng_draws w1 (rng_pos w1) mod 64),
                                              int (rng_draws w1 (Suc (rng_pos w1)) mod 64))\<rparr>)\<rparr>)
               a
               (Structured [(''desired_action'', action_value st a), (''my_reason'', ''RNG said so!'')]))"
proof -
  have ns: "\<not> is_simple st a" using assms(1) by (simp add: is_simple_def is_complex_def)
  let ?x = "int (rng_draws w1 (rng_pos w1) mod 64)"
  let ?w2 = "w1\<lparr>rng_pos := Suc (rng_pos w1)\<rparr>"
  let ?y = "int (rng_draws w1 (Suc (rng_pos w1)) mod 64)"
  let ?w3 = "w1\<lparr>rng_pos := Suc (Suc (rng_pos w1))\<rparr>"
  have r1: "randint w1 0 63 = Inr (?x, ?w2)" by (simp add: randint_returns)
  have r2: "randint ?w2 0 63 = Inr (?y, ?w3)" by (simp add: randint_returns)
  have xr: "0 \<le> ?x \<and> ?x \<le> 63" by simp
  have yr: "0 \<le> ?y \<and> ?y \<le> 63" by simp
  have sd: "set_data ?w3 a ?x ?y =
      Inr (?w3\<lparr>member_attrs := (member_attrs ?w3)(a := (member_attrs ?w3 a)\<lparr>action_data := Some (?x, ?y)\<rparr>)\<rparr>)"
    using xr yr by (intro set_data_in_range) simp_all
  show ?thesis
    using assms ns r1 r2 sd by (simp add: choose_action_def)
qed

lemma shape_cases: "is_simple st a \<or> is_complex st a"
  by (cases "action_type st a") (simp_all add: is_simple_def is_complex_def)

lemma choose_action_raises:
  "(if state l \<in> set [NOT_PLAYED, GAME_OVER] then Inr (RESET, w)
    else random_choice w (filter (\<lambda>a. a \<noteq> RESET) (game_actions st))) = Inl e \<Longrightarrow>
   choose_action st w h l = Inl e"
  by (simp add: choose_action_def)


lemma choose_action_resets:
  assumes "state l = NOT_PLAYED \<or> state l = GAME_OVER"
  shows "\<exists>w'. choose_action st w h l = Inr (RESET, w')"
proof -
  have sel: "(if state l \<in> set [NOT_PLAYED, GAME_OVER] then Inr (RESET, w)
          else random_choice w (filter (\<lambda>a. a \<noteq> RESET) (game_actions st))) = Inr (RESET, w)"
    using assms by auto
  from shape_cases [of st RESET] show ?thesis
  proof
    assume "is_simple st RESET"
    from choose_action_simple [OF this sel] show ?thesis by blast
  next
    assume "is_complex st RESET"
    from choose_action_complex [OF this sel] show ?thesis by blast
  qed
qed

lemma choose_action_selected:
  assumes "choose_action st w h l = Inr (a, w')"
  shows "\<exists>w1. (if state l \<in> set [NOT_PLAYED, GAME_OVER] then Inr (RESET, w)
          else random_choice w (filter (\<lambda>a. a \<noteq> RESET) (game_actions st))) = Inr (a, w1)"
proof (cases "if state l \<in> set [NOT_PLAYED, GAME_OVER] then Inr (RESET, w)
          else random_choice w (filter (\<lambda>a. a \<noteq> RESET) (game_actions st))")
  case (Inl e)
  from choose_action_raises [OF this] assms show ?thesis by simp
next
  case (Inr p)
  obtain b w1 where p: "p = (b, w1)" by (cases p)
  from shape_cases [of st b] have "choose_action st w h l = Inr (b, snd (projr (choose_action st w h l)))"
  proof
    assume "is_simple st b"
    from choose_action_simple [OF this Inr [unfolded p]] show ?thesis by simp
  next
    assume "is_complex st b"
    from choose_action_complex [OF this Inr [unfolded p]] show ?thesis by simp
  qed
  with assms have "b = a" by simp
  with Inr p show ?thesis by blast
qed

lemma choose_action_not_reset:
  assumes "choose_action st w h l = Inr (a, w')"
    and "\<not> (state l = NOT_PLAYED \<or> state l = GAME_OVER)"
  shows "a \<noteq> RESET \<and> a \<in> set (game_actions st)"
proof -
  from choose_action_selected [OF assms(1)] assms(2)
  obtain w1 where "random_choice w (filter (\<lambda>a. a \<noteq> RESET) (game_actions st)) = Inr (a, w1)"
    by auto
  from random_choice_result [OF this] show ?thesis by simp
qed

lemma choose_action_no_validation_error: "choose_action st w h l \<noteq> Inl ValidationError \<and> choose_action st w h l \<noteq> Inl ValueError"
proof (cases "if state l \<in> set [NOT_PLAYED, GAME_OVER] then Inr (RESET, w)
          else random_choice w (filter (\<lambda>a. a \<noteq> RESET) (game_actions st))")
  case (Inl e)
  then have "e = IndexError" by (auto simp: random_choice_def randbelow_def split: if_splits)
  with choose_action_raises [OF Inl] show ?thesis by simp
next
  case (Inr p)
  obtain b w1 where p: "p = (b, w1)" by (cases p)
  from shape_cases [of st b] show ?thesis
  proof
    assume "is_simple st b"
    from choose_action_simple [OF this Inr [unfolded p]] show ?thesis by simp
  next
    assume "is_complex st b"
    from choose_action_complex [OF this Inr [unfolded p]] show ?thesis by simp
  qed
qed


lemma example_choice:
  "choose_action example_structs example_world [] (example_frame (IN_PROGRESS 0)) = Inr (ACTION 6, example_world_after)"
  by (simp add: choose_action_def example_structs_def example_world_def example_frame_def
    random_choice_def randbelow_def randint_def set_data_def GRID_MAX_def set_reasoning_def
    is_simple_def is_complex_def show_nat_small digit_char_def example_world_after_def)


text \<open>
  Claim C1. For every frame history and latest frame, \<^verbatim>\<open>choose_action\<close> returns the
  \<^verbatim>\<open>RESET\<close> action if and only if the state of the latest frame is \<^verbatim>\<open>NOT_PLAYED\<close> or
  \<^verbatim>\<open>GAME_OVER\<close>. In those two states the call returns, and returns \<^verbatim>\<open>RESET\<close>; in
  every other state what it returns is never \<^verbatim>\<open>RESET\<close>. The history plays no part.
\<close>

theorem choose_action_reset_iff:
  "(\<exists>w'. choose_action st w h l = Inr (RESET, w')) \<longleftrightarrow> (state l = NOT_PLAYED \<or> state l = GAME_OVER)"
  using choose_action_resets choose_action_not_reset by blast

theorem choose_action_reset_iff_witness:
  "(\<exists>w'. choose_action example_structs example_world [] (example_frame GAME_OVER) = Inr (RESET, w'))
   \<and> state (example_frame GAME_OVER) = GAME_OVER
   \<and> \<not> (\<exists>w'. choose_action example_structs example_world [example_frame NOT_PLAYED] (example_frame (IN_PROGRESS 0)) = Inr (RESET, w'))
   \<and> state (example_frame (IN_PROGRESS 0)) = IN_PROGRESS 0"
  using choose_action_reset_iff [of example_structs example_world "[]" "example_frame GAME_OVER"]
    choose_action_reset_iff [of example_structs example_world "[example_frame NOT_PLAYED]" "example_frame (IN_PROGRESS 0)"]
  by (simp add: example_frame_def)

text \<open>
  Claim C2. For every frame history and latest frame, \<^verbatim>\<open>is_done\<close> returns true if and
  only if the state of the latest frame is \<^verbatim>\<open>WIN\<close>; it returns false on \<^verbatim>\<open>GAME_OVER\<close>
  and on every other state.
\<close>

theorem is_done_iff_win: "is_done w h l = Inr (state l = WIN, w)"
  by (simp add: is_done_def)

theorem is_done_iff_win_witness:
  "is_done example_world [] (example_frame WIN) = Inr (True, example_world)
   \<and> is_done example_world [] (example_frame GAME_OVER) = Inr (False, example_world)
   \<and> is_done example_world [] (example_frame (IN_PROGRESS 0)) = Inr (False, example_world)"
  using is_done_iff_win [of example_world "[]" "example_frame WIN"]
    is_done_iff_win [of example_world "[]" "example_frame GAME_OVER"]
    is_done_iff_win [of example_world "[]" "example_frame (IN_PROGRESS 0)"]
  by (simp add: example_frame_def)

text \<open>
  Claim C3. Whenever \<^verbatim>\<open>choose_action\<close> returns a complex action, the payload attached to
  it has two coordinates \<open>x\<close> and \<open>y\<close> within \<open>[0, GRID_MAX]\<close>, whatever the generator
  draws: they are the two draws made after the selection, \<open>x\<close> first, each reduced to
  \<open>{0..63}\<close>.
\<close>

theorem choose_action_coordinates:
  assumes "choose_action st w h l = Inr (a, w')" and "is_complex st a"
  shows "\<exists>x y. action_data (member_attrs w' a) = Some (x, y)
           \<and> 0 \<le> x \<and> x \<le> GRID_MAX \<and> 0 \<le> y \<and> y \<le> GRID_MAX
           \<and> x = int (rng_draws w (rng_pos w' - 2) mod 64)
           \<and> y = int (rng_draws w (rng_pos w' - 1) mod 64)"
proof -
  from choose_action_selected [OF assms(1)] obtain w1 where
    sel: "(if state l \<in> set [NOT_PLAYED, GAME_OVER] then Inr (RESET, w)
          else random_choice w (filter (\<lambda>a. a \<noteq> RESET) (game_actions st))) = Inr (a, w1)"
    by blast
  have draws: "rng_draws w1 = rng_draws w"
    using sel by (auto split: if_splits dest: random_choice_result)
  from choose_action_complex [OF assms(2) sel] assms(1)
  have w': "w' = set_reasoning
               (w1\<lparr>rng_pos := Suc (Suc (rng_pos w1)),
                   member_attrs := (member_attrs w1)
                     (a := (member_attrs w1 a)
                        \<lparr>action_data := Some (int (rng_draws w1 (rng_pos w1) mod 64),
                                              int (rng_draws w1 (Suc (rng_pos w1)) mod 64))\<rparr>)\<rparr>)
               a
               (Structured [(''desired_action'', action_value st a), (''my_reason'', ''RNG said so!'')])"
    by simp
  have "int (rng_draws w1 (rng_pos w1) mod 64) \<le> 63" "int (rng_draws w1 (Suc (rng_pos w1)) mod 64) \<le> 63"
    by simp_all
  then show ?thesis
    by (simp add: w' draws set_reasoning_def GRID_MAX_def)
qed

theorem choose_action_coordinates_witness:
  "choose_action example_structs example_world [] (example_frame (IN_PROGRESS 0)) = Inr (ACTION 6, example_world_after)
   \<and> is_complex example_structs (ACTION 6)
   \<and> action_data (member_attrs example_world_after (ACTION 6)) = Some (37, 9)
   \<and> (\<exists>x y. action_data (member_attrs example_world_after (ACTION 6)) = Some (x, y)
           \<and> 0 \<le> x \<and> x \<le> GRID_MAX \<and> 0 \<le> y \<and> y \<le> GRID_MAX
           \<and> x = int (rng_draws example_world (rng_pos example_world_after - 2) mod 64)
           \<and> y = int (rng_draws example_world (rng_pos example_world_after - 1) mod 64))"
proof -
  have c: "is_complex example_structs (ACTION 6)"
    by (simp add: is_complex_def example_structs_def)
  have d: "action_data (member_attrs example_world_after (ACTION 6)) = Some (37, 9)"
    by (simp add: example_world_after_def)
  from choose_action_coordinates [OF example_choice c] example_choice c d show ?thesis by blast
qed


text \<open>
  Claim C10. The result of \<^verbatim>\<open>is_done\<close> does not depend on the frame history: two
  histories, the empty one included, with the same latest frame give the same result.
\<close>

theorem is_done_ignores_history: "is_done w h1 l = is_done w h2 l"
  by (simp add: is_done_def)

theorem is_done_ignores_history_witness:
  "is_done example_world [] (example_frame WIN)
     = is_done example_world [example_frame NOT_PLAYED, example_frame (IN_PROGRESS 0)] (example_frame WIN)"
  by (rule is_done_ignores_history)


section \<open>Properties of the frame recorder\<close>

lemma example_path:
  "path_join ''frames/ls20'' (filename 0 1234) = ''frames/ls20/frame_0000_1234.json''"
  by code_simp

lemma example_frames_dir: "frames_dir example_world = init_frames_dir (agent_game_id example_world)"
  by (simp add: example_world_def init_frames_dir_def path_join_def)

lemma example_path3:
  "path_join ''frames/ls20'' (filename 3 1234) = ''frames/ls20/frame_0003_1234.json''"
  by code_simp

lemma example_path4:
  "path_join ''frames/ls20'' (filename 4 1234) = ''frames/ls20/frame_0004_1234.json''"
  by code_simp

lemma show_int_0: "show_int 0 = ''0''"
  by code_simp

text \<open>What one call of the recorder does, case by case.\<close>

lemma save_frame_to_file_empty:
  "is_empty f \<Longrightarrow> save_frame_to_file st w f k = Inr w"
  by (simp add: save_frame_to_file_def)

lemma save_frame_to_file_written:
  "\<not> is_empty f \<Longrightarrow>
   storage_fault w (path_join (frames_dir w) (filename k (clock_ms w))) = None \<Longrightarrow>
   save_frame_to_file st w f k =
     Inr (w\<lparr>files := (files w)(path_join (frames_dir w) (filename k (clock_ms w))
                  \<mapsto> Document (frame_data st f k (clock_ms w))),
            stdout := stdout w @ [''Saved frame '' @ show_int k @ '' to ''
                  @ path_join (frames_dir w) (filename k (clock_ms w))]\<rparr>)"
  by (simp add: save_frame_to_file_def open_and_dump_def print_def Let_def)

lemma save_frame_to_file_open_fails:
  "\<not> is_empty f \<Longrightarrow>
   storage_fault w (path_join (frames_dir w) (filename k (clock_ms w))) = Some (OpenFails e) \<Longrightarrow>
   save_frame_to_file st w f k =
     Inr (w\<lparr>stdout := stdout w @ [''Failed to save frame '' @ show_int k @ '': '' @ io_error_text e]\<rparr>)"
  by (simp add: save_frame_to_file_def open_and_dump_def print_def Let_def)

lemma save_frame_to_file_dump_fails:
  "\<not> is_empty f \<Longrightarrow>
   storage_fault w (path_join (frames_dir w) (filename k (clock_ms w))) = Some (DumpFails e) \<Longrightarrow>
   save_frame_to_file st w f k =
     Inr (w\<lparr>files := (files w)(path_join (frames_dir w) (filename k (clock_ms w)) \<mapsto> Truncated),
            stdout := stdout w @ [''Failed to save frame '' @ show_int k @ '': '' @ io_error_text e]\<rparr>)"
  by (simp add: save_frame_to_file_def open_and_dump_def print_def Let_def)

lemma save_frame_to_file_returns:
  "\<exists>w'. save_frame_to_file st w f k = Inr w' \<and> frames w' = frames w"
proof (cases "is_empty f")
  case True
  then show ?thesis by (simp add: save_frame_to_file_empty)
next
  case False
  show ?thesis
  proof (cases "storage_fault w (path_join (frames_dir w) (filename k (clock_ms w)))")
    case None
    from save_frame_to_file_written [OF False None] show ?thesis by simp
  next
    case (Some flt)
    then show ?thesis
    proof (cases flt)
      case (OpenFails e)
      with Some save_frame_to_file_open_fails [OF False, of w k e st] show ?thesis by simp
    next
      case (DumpFails e)
      with Some save_frame_to_file_dump_fails [OF False, of w k e st] show ?thesis by simp
    qed
  qed
qed

lemma example_frame_not_empty: "\<not> is_empty (example_frame s)"
  by (simp add: is_empty_def example_frame_def)

lemma offline_fault:
  "storage_fault offline_world (path_join (frames_dir offline_world) (filename 0 (clock_ms offline_world)))
     = Some (OpenFails (OSError ''[Errno 13] Permission denied''))"
  by (simp add: offline_world_def)

text \<open>
  Claim C4. For every frame, empty or not, and every sequence number, the recorder
  returns normally to its caller: a failure of the storage, whether \<^verbatim>\<open>open\<close> raises or
  \<^verbatim>\<open>json.dump\<close> raises while writing, is caught inside \<^verbatim>\<open>save_frame_to_file\<close> and
  reported by one line on the standard output; the frame history is as it was.
\<close>

theorem save_frame_to_file_contains_failures:
  "\<exists>w'. save_frame_to_file st w f k = Inr w' \<and>
     (\<forall>e. \<not> is_empty f \<and>
          (storage_fault w (path_join (frames_dir w) (filename k (clock_ms w))) = Some (OpenFails e)
           \<or> storage_fault w (path_join (frames_dir w) (filename k (clock_ms w))) = Some (DumpFails e))
        \<longrightarrow> stdout w' = stdout w @ [''Failed to save frame '' @ show_int k @ '': '' @ io_error_text e]
            \<and> frames w' = frames w)"
proof -
  from save_frame_to_file_returns obtain w' where
    r: "save_frame_to_file st w f k = Inr w'" and fr: "frames w' = frames w"
    by blast
  have "stdout w' = stdout w @ [''Failed to save frame '' @ show_int k @ '': '' @ io_error_text e]"
    if "\<not> is_empty f"
      and "storage_fault w (path_join (frames_dir w) (filename k (clock_ms w))) = Some (OpenFails e)
           \<or> storage_fault w (path_join (frames_dir w) (filename k (clock_ms w))) = Some (DumpFails e)"
    for e
    using that(2)
  proof
    assume "storage_fault w (path_join (frames_dir w) (filename k (clock_ms w))) = Some (OpenFails e)"
    from save_frame_to_file_open_fails [OF that(1) this, of st] r show ?thesis by simp
  next
    assume "storage_fault w (path_join (frames_dir w) (filename k (clock_ms w))) = Some (DumpFails e)"
    from save_frame_to_file_dump_fails [OF that(1) this, of st] r show ?thesis by simp
  qed
  with r fr show ?thesis by blast
qed

theorem save_frame_to_file_contains_failures_witness:
  "\<exists>w'. save_frame_to_file example_structs offline_world (example_frame WIN) 0 = Inr w'
     \<and> \<not> is_empty (example_frame WIN)
     \<and> storage_fault offline_world ''frames/ls20/frame_0000_1234.json''
         = Some (OpenFails (OSError ''[Errno 13] Permission denied''))
     \<and> stdout w' = [''Failed to save frame 0: [Errno 13] Permission denied'']"
proof -
  from save_frame_to_file_contains_failures [of example_structs offline_world "example_frame WIN" 0]
  obtain w' where r: "save_frame_to_file example_structs offline_world (example_frame WIN) 0 = Inr w'"
    and h: "\<And>e. \<not> is_empty (example_frame WIN) \<and>
          (storage_fault offline_world (path_join (frames_dir offline_world) (filename 0 (clock_ms offline_world))) = Some (OpenFails e)
           \<or> storage_fault offline_world (path_join (frames_dir offline_world) (filename 0 (clock_ms offline_world))) = Some (DumpFails e))
        \<Longrightarrow> stdout w' = stdout offline_world @ [''Failed to save frame '' @ show_int 0 @ '': '' @ io_error_text e]"
    by blast
  have "stdout w' = stdout offline_world @ [''Failed to save frame '' @ show_int 0 @ '': ''
          @ io_error_text (OSError ''[Errno 13] Permission denied'')]"
    by (rule h) (simp only: example_frame_not_empty offline_fault not_False_eq_True simp_thms)
  then have "stdout w' = [''Failed to save frame 0: [Errno 13] Permission denied'']"
    by (simp add: show_int_0 offline_world_def example_world_def)
  moreover have "storage_fault offline_world ''frames/ls20/frame_0000_1234.json''
         = Some (OpenFails (OSError ''[Errno 13] Permission denied''))"
    by (simp add: offline_world_def)
  ultimately show ?thesis using r example_frame_not_empty by simp
qed

text \<open>
  Claim C6. For every empty frame and every sequence number the recorder writes no
  record, prints nothing and signals no error: it returns with the state unchanged.
\<close>

theorem save_frame_to_file_skips_empty:
  "is_empty f \<Longrightarrow> save_frame_to_file st w f k = Inr w"
  by (rule save_frame_to_file_empty)

theorem save_frame_to_file_skips_empty_witness:
  "is_empty example_empty_frame
   \<and> save_frame_to_file example_structs example_world example_empty_frame 7 = Inr example_world
   \<and> files example_world = Map.empty \<and> stdout example_world = []"
proof -
  have e: "is_empty example_empty_frame"
    by (simp add: is_empty_def example_empty_frame_def)
  from save_frame_to_file_skips_empty [OF e, of example_structs example_world 7] e
  show ?thesis by (simp add: example_world_def)
qed

lemma filename_paths_distinct:
  "k1 \<noteq> k2 \<Longrightarrow> path_join d (filename k1 t1) \<noteq> path_join d (filename k2 t2)"
  by (blast dest: filename_inj_number path_join_filename_inj)

text \<open>The one file a call of the recorder can change.\<close>

lemma save_frame_to_file_touches:
  assumes "save_frame_to_file st w f k = Inr w'" and "files w' p \<noteq> files w p"
  shows "p = path_join (frames_dir w) (filename k (clock_ms w))"
proof (rule ccontr)
  assume ne: "p \<noteq> path_join (frames_dir w) (filename k (clock_ms w))"
  have "files w' p = files w p"
  proof (cases "is_empty f")
    case True
    from save_frame_to_file_empty [OF True, of st w k] assms(1) show ?thesis by simp
  next
    case False
    show ?thesis
    proof (cases "storage_fault w (path_join (frames_dir w) (filename k (clock_ms w)))")
      case None
      from save_frame_to_file_written [OF False None, of st] assms(1) ne show ?thesis by auto
    next
      case (Some flt)
      then show ?thesis
      proof (cases flt)
        case (OpenFails e)
        with Some save_frame_to_file_open_fails [OF False, of w k e st] assms(1) show ?thesis by auto
      next
        case (DumpFails e)
        with Some save_frame_to_file_dump_fails [OF False, of w k e st] assms(1) ne show ?thesis by auto
      qed
    qed
  qed
  with assms(2) show False by simp
qed

text \<open>
  Claim C7. Two calls of the recorder with distinct sequence numbers in one frames
  directory never collide, whatever the two timestamps are and in particular when they
  are the same: the second call leaves every file that the first call changed as it
  finds it. When both frames are non-empty and the storage accepts both writes, the two
  generated paths are distinct and after the second call both records are in place, the
  first as the first call wrote it (nothing else having touched that file in between).
\<close>

theorem recorded_files_distinct:
  assumes "k1 \<noteq> k2" and "frames_dir w2 = frames_dir w"
    and "save_frame_to_file st w f1 k1 = Inr w1"
    and "save_frame_to_file st w2 f2 k2 = Inr w3"
  shows "(\<forall>p. files w1 p \<noteq> files w p \<longrightarrow> files w3 p = files w2 p)
       \<and> (\<not> is_empty f1 \<and> \<not> is_empty f2
            \<and> storage_fault w (path_join (frames_dir w) (filename k1 (clock_ms w))) = None
            \<and> storage_fault w2 (path_join (frames_dir w2) (filename k2 (clock_ms w2))) = None
            \<and> files w2 (path_join (frames_dir w) (filename k1 (clock_ms w)))
                 = files w1 (path_join (frames_dir w) (filename k1 (clock_ms w)))
          \<longrightarrow> path_join (frames_dir w) (filename k1 (clock_ms w))
                 \<noteq> path_join (frames_dir w2) (filename k2 (clock_ms w2))
              \<and> files w3 (path_join (frames_dir w) (filename k1 (clock_ms w)))
                  = Some (Document (frame_data st f1 k1 (clock_ms w)))
              \<and> files w3 (path_join (frames_dir w2) (filename k2 (clock_ms w2)))
                  = Some (Document (frame_data st f2 k2 (clock_ms w2))))"
proof -
  let ?p1 = "path_join (frames_dir w) (filename k1 (clock_ms w))"
  let ?p2 = "path_join (frames_dir w2) (filename k2 (clock_ms w2))"
  have ne: "?p1 \<noteq> ?p2"
    using assms(1) by (simp add: assms(2) filename_paths_distinct)
  have apart: "files w3 p = files w2 p" if "files w1 p \<noteq> files w p" for p
  proof (rule ccontr)
    assume "files w3 p \<noteq> files w2 p"
    from save_frame_to_file_touches [OF assms(4) this] save_frame_to_file_touches [OF assms(3) that] ne
    show False by simp
  qed
  have both: "?p1 \<noteq> ?p2
      \<and> files w3 ?p1 = Some (Document (frame_data st f1 k1 (clock_ms w)))
      \<and> files w3 ?p2 = Some (Document (frame_data st f2 k2 (clock_ms w2)))"
    if e1: "\<not> is_empty f1" and e2: "\<not> is_empty f2"
      and ok1: "storage_fault w ?p1 = None" and ok2: "storage_fault w2 ?p2 = None"
      and kept: "files w2 ?p1 = files w1 ?p1"
  proof -
    from save_frame_to_file_written [OF e1 ok1, of st] assms(3)
    have "files w1 ?p1 = Some (Document (frame_data st f1 k1 (clock_ms w)))"
      by auto
    with kept have first: "files w2 ?p1 = Some (Document (frame_data st f1 k1 (clock_ms w)))"
      by simp
    from save_frame_to_file_written [OF e2 ok2, of st] assms(4)
    have w3: "files w3 = (files w2)(?p2 \<mapsto> Document (frame_data st f2 k2 (clock_ms w2)))"
      by auto
    from w3 ne first have "files w3 ?p1 = Some (Document (frame_data st f1 k1 (clock_ms w)))"
      by simp
    moreover from w3 have "files w3 ?p2 = Some (Document (frame_data st f2 k2 (clock_ms w2)))"
      by simp
    ultimately show ?thesis using ne by blast
  qed
  from apart both show ?thesis by blast
qed

theorem recorded_files_distinct_witness:
  "(3::int) \<noteq> 4
   \<and> (\<exists>w1 w3.
        save_frame_to_file example_structs example_world (example_frame (IN_PROGRESS 0)) 3 = Inr w1
      \<and> clock_ms w1 = clock_ms example_world
      \<and> frames_dir w1 = frames_dir example_world
      \<and> save_frame_to_file example_structs w1 (example_frame WIN) 4 = Inr w3
      \<and> files w1 ''frames/ls20/frame_0003_1234.json'' \<noteq> files example_world ''frames/ls20/frame_0003_1234.json''
      \<and> files w3 ''frames/ls20/frame_0003_1234.json'' = files w1 ''frames/ls20/frame_0003_1234.json''
      \<and> ''frames/ls20/frame_0003_1234.json'' \<noteq> ''frames/ls20/frame_0004_1234.json''
      \<and> files w3 ''frames/ls20/frame_0003_1234.json''
          = Some (Document (frame_data example_structs (example_frame (IN_PROGRESS 0)) 3 1234))
      \<and> files w3 ''frames/ls20/frame_0004_1234.json''
          = Some (Document (frame_data example_structs (example_frame WIN) 4 1234)))"
proof -
  have ne: "(3::int) \<noteq> 4" by simp
  have c: "clock_ms example_world = 1234" "frames_dir example_world = ''frames/ls20''"
    "files example_world = Map.empty"
    by (simp_all add: example_world_def)
  have ok1: "storage_fault example_world
      (path_join (frames_dir example_world) (filename 3 (clock_ms example_world))) = None"
    by (simp add: example_world_def)
  obtain w1 where r1: "save_frame_to_file example_structs example_world (example_frame (IN_PROGRESS 0)) 3 = Inr w1"
    and w1: "w1 = example_world\<lparr>files := (files example_world)
                 (path_join (frames_dir example_world) (filename 3 (clock_ms example_world))
                    \<mapsto> Document (frame_data example_structs (example_frame (IN_PROGRESS 0)) 3 (clock_ms example_world))),
            stdout := stdout example_world @ [''Saved frame '' @ show_int 3 @ '' to ''
                  @ path_join (frames_dir example_world) (filename 3 (clock_ms example_world))]\<rparr>"
    using save_frame_to_file_written [OF example_frame_not_empty ok1, of example_structs]
    by blast
  have same: "frames_dir w1 = frames_dir example_world" "clock_ms w1 = clock_ms example_world"
    "storage_fault w1 = storage_fault example_world"
    by (simp_all add: w1)
  have ok2: "storage_fault w1 (path_join (frames_dir w1) (filename 4 (clock_ms w1))) = None"
    by (simp add: same) (simp add: example_world_def)
  obtain w3 where r2: "save_frame_to_file example_structs w1 (example_frame WIN) 4 = Inr w3"
    using save_frame_to_file_written [OF example_frame_not_empty ok2, of example_structs]
    by blast
  have changed: "files w1 ''frames/ls20/frame_0003_1234.json'' \<noteq> files example_world ''frames/ls20/frame_0003_1234.json''"
    by (simp add: w1 c example_path3)
  note t = recorded_files_distinct [OF ne same(1) r1 r2]
  from t changed have kept: "files w3 ''frames/ls20/frame_0003_1234.json'' = files w1 ''frames/ls20/frame_0003_1234.json''"
    by blast
  from t example_frame_not_empty ok1 ok2
  have "path_join (frames_dir example_world) (filename 3 (clock_ms example_world))
          \<noteq> path_join (frames_dir w1) (filename 4 (clock_ms w1))
      \<and> files w3 (path_join (frames_dir example_world) (filename 3 (clock_ms example_world)))
          = Some (Document (frame_data example_structs (example_frame (IN_PROGRESS 0)) 3 (clock_ms example_world)))
      \<and> files w3 (path_join (frames_dir w1) (filename 4 (clock_ms w1)))
          = Some (Document (frame_data example_structs (example_frame WIN) 4 (clock_ms w1)))"
    by blast
  then have "''frames/ls20/frame_0003_1234.json'' \<noteq> ''frames/ls20/frame_0004_1234.json''
      \<and> files w3 ''frames/ls20/frame_0003_1234.json''
          = Some (Document (frame_data example_structs (example_frame (IN_PROGRESS 0)) 3 1234))
      \<and> files w3 ''frames/ls20/frame_0004_1234.json''
          = Some (Document (frame_data example_structs (example_frame WIN) 4 1234))"
    by (simp add: same c example_path3 example_path4)
  with ne r1 r2 same changed kept show ?thesis by blast
qed


section \<open>Reading a record back: properties\<close>

lemma find_by_value:
  "distinct (map v xs) \<Longrightarrow> x \<in> set xs \<Longrightarrow> find (\<lambda>y. v y = v x) xs = Some x"
proof (induction xs)
  case Nil
  then show ?case by simp
next
  case (Cons a xs)
  show ?case
  proof (cases "v a = v x")
    case True
    have "x = a"
    proof (rule ccontr)
      assume "x \<noteq> a"
      with Cons.prems(2) have "x \<in> set xs" by simp
      then have "v x \<in> set (map v xs)" by simp
      with True Cons.prems(1) show False by simp
    qed
    with True show ?thesis by simp
  next
    case False
    then have "x \<noteq> a" by auto
    with Cons False show ?thesis by simp
  qed
qed

lemma state_of_value_state_value:
  "distinct (map (state_value st) (game_states st)) \<Longrightarrow> s \<in> set (game_states st) \<Longrightarrow>
     state_of_value st (state_value st s) = Some s"
  unfolding state_of_value_def by (rule find_by_value)

lemma action_of_value_action_value:
  "distinct (map (action_value st) (game_actions st)) \<Longrightarrow> a \<in> set (game_actions st) \<Longrightarrow>
     action_of_value st (action_value st a) = Some a"
  unfolding action_of_value_def by (rule find_by_value)

lemma those_actions_of_json:
  "distinct (map (action_value st) (game_actions st)) \<Longrightarrow> set acts \<subseteq> set (game_actions st) \<Longrightarrow>
     those (map (action_of_json st) (map (\<lambda>a. JStr (action_value st a)) acts)) = Some acts"
  by (induction acts) (simp_all add: action_of_value_action_value)

lemma parse_record_frame_data:
  assumes "distinct (map (state_value st) (game_states st))"
    and "state f \<in> set (game_states st)"
    and "distinct (map (action_value st) (game_actions st))"
    and "set (available_actions f) \<subseteq> set (game_actions st)"
  shows "parse_record st (frame_data st f k t) =
     Some \<lparr>p_frame_number = k, p_timestamp = t, p_game_id = game_id f, p_frame = frame f,
           p_state = state f, p_score = score f, p_guid = guid f, p_full_reset = full_reset f,
           p_available_actions = available_actions f\<rparr>"
  by (simp add: parse_record_def frame_data_def get_int_def get_str_def get_bool_def get_list_def
      state_of_value_state_value [OF assms(1,2)] those_actions_of_json [OF assms(3,4)]
      del: map_map)

lemma example_enums:
  "distinct (map (state_value example_structs) (game_states example_structs))"
  "state (example_frame WIN) \<in> set (game_states example_structs)"
  "distinct (map (action_value example_structs) (game_actions example_structs))"
  "set (available_actions (example_frame WIN)) \<subseteq> set (game_actions example_structs)"
  by (simp_all add: example_structs_def example_frame_def show_nat_small digit_char_def)

lemma example_world_path:
  "path_join (frames_dir example_world) (filename 0 (clock_ms example_world))
     = ''frames/ls20/frame_0000_1234.json''"
  by (simp add: example_world_def example_path)

text \<open>
  Claim C5, as amended. For every non-empty frame and sequence number \<open>k\<close>, a call of
  the recorder whose write the storage accepts produces exactly one record: the file at
  the generated path holds one document and no other file changes. The document reads
  back with \<^verbatim>\<open>frame_number\<close> equal to \<open>k\<close> and with \<^verbatim>\<open>game_id\<close>, \<^verbatim>\<open>frame\<close>, \<^verbatim>\<open>state\<close>,
  \<^verbatim>\<open>score\<close>, \<^verbatim>\<open>guid\<close>, \<^verbatim>\<open>full_reset\<close> and \<^verbatim>\<open>available_actions\<close> equal to the fields of the
  frame. The state and the action kinds of the frame are members of their enums, whose
  members have distinct values, as Python's \<^verbatim>\<open>Enum\<close> has it.
\<close>

theorem save_frame_to_file_round_trip:
  assumes "\<not> is_empty f"
    and "storage_fault w (path_join (frames_dir w) (filename k (clock_ms w))) = None"
    and "distinct (map (state_value st) (game_states st))"
    and "state f \<in> set (game_states st)"
    and "distinct (map (action_value st) (game_actions st))"
    and "set (available_actions f) \<subseteq> set (game_actions st)"
  shows "\<exists>w' doc. save_frame_to_file st w f k = Inr w'
      \<and> files w' = (files w)(path_join (frames_dir w) (filename k (clock_ms w)) \<mapsto> Document doc)
      \<and> parse_record st doc =
          Some \<lparr>p_frame_number = k, p_timestamp = clock_ms w, p_game_id = game_id f,
                p_frame = frame f, p_state = state f, p_score = score f, p_guid = guid f,
                p_full_reset = full_reset f, p_available_actions = available_actions f\<rparr>"
proof -
  let ?w' = "w\<lparr>files := (files w)(path_join (frames_dir w) (filename k (clock_ms w))
                  \<mapsto> Document (frame_data st f k (clock_ms w))),
            stdout := stdout w @ [''Saved frame '' @ show_int k @ '' to ''
                  @ path_join (frames_dir w) (filename k (clock_ms w))]\<rparr>"
  have "save_frame_to_file st w f k = Inr ?w'"
    using assms(1,2) by (rule save_frame_to_file_written)
  moreover have "files ?w' = (files w)(path_join (frames_dir w) (filename k (clock_ms w))
      \<mapsto> Document (frame_data st f k (clock_ms w)))"
    by simp
  moreover note parse_record_frame_data [OF assms(3-6), of k "clock_ms w"]
  ultimately show ?thesis by blast
qed

theorem save_frame_to_file_round_trip_witness:
  "\<not> is_empty (example_frame WIN)
   \<and> storage_fault example_world ''frames/ls20/frame_0000_1234.json'' = None
   \<and> (\<exists>w' doc. save_frame_to_file example_structs example_world (example_frame WIN) 0 = Inr w'
        \<and> files w' = [''frames/ls20/frame_0000_1234.json'' \<mapsto> Document doc]
        \<and> parse_record example_structs doc =
            Some \<lparr>p_frame_number = 0, p_timestamp = 1234, p_game_id = ''ls20'',
                  p_frame = JArr [JArr [JArr [JInt 0, JInt 5]]], p_state = WIN, p_score = 3,
                  p_guid = ''g-17'', p_full_reset = False,
                  p_available_actions = [ACTION 1, ACTION 6]\<rparr>)"
proof -
  have ok: "storage_fault example_world
      (path_join (frames_dir example_world) (filename 0 (clock_ms example_world))) = None"
    by (simp add: example_world_def)
  from save_frame_to_file_round_trip [OF example_frame_not_empty ok example_enums]
  obtain w' doc where "save_frame_to_file example_structs example_world (example_frame WIN) 0 = Inr w'"
    and "files w' = (files example_world)(path_join (frames_dir example_world)
            (filename 0 (clock_ms example_world)) \<mapsto> Document doc)"
    and "parse_record example_structs doc =
          Some \<lparr>p_frame_number = 0, p_timestamp = clock_ms example_world,
                p_game_id = game_id (example_frame WIN),
                p_frame = frame (example_frame WIN), p_state = state (example_frame WIN),
                p_score = score (example_frame WIN), p_guid = guid (example_frame WIN),
                p_full_reset = full_reset (example_frame WIN),
                p_available_actions = available_actions (example_frame WIN)\<rparr>"
    by blast
  then have "save_frame_to_file example_structs example_world (example_frame WIN) 0 = Inr w'
        \<and> files w' = [''frames/ls20/frame_0000_1234.json'' \<mapsto> Document doc]
        \<and> parse_record example_structs doc =
            Some \<lparr>p_frame_number = 0, p_timestamp = 1234, p_game_id = ''ls20'',
                  p_frame = JArr [JArr [JArr [JInt 0, JInt 5]]], p_state = WIN, p_score = 3,
                  p_guid = ''g-17'', p_full_reset = False,
                  p_available_actions = [ACTION 1, ACTION 6]\<rparr>"
    by (simp add: example_world_path) (simp add: example_world_def example_frame_def)
  moreover have "storage_fault example_world ''frames/ls20/frame_0000_1234.json'' = None"
    by (simp add: example_world_def)
  ultimately show ?thesis using example_frame_not_empty by blast
qed

text \<open>
  Claim C5 as stated fails when the storage refuses the write: the frame is not empty,
  the call returns, and no record exists afterwards.
\<close>

theorem save_frame_to_file_no_record_counterexample:
  "\<not> is_empty (example_frame WIN)
   \<and> save_frame_to_file example_structs offline_world (example_frame WIN) 0
       = Inr (offline_world\<lparr>stdout := [''Failed to save frame 0: [Errno 13] Permission denied'']\<rparr>)
   \<and> files (offline_world\<lparr>stdout := [''Failed to save frame 0: [Errno 13] Permission denied'']\<rparr>)
       = Map.empty"
proof -
  have "save_frame_to_file example_structs offline_world (example_frame WIN) 0
       = Inr (offline_world\<lparr>stdout := stdout offline_world @ [''Failed to save frame '' @ show_int 0 @ '': ''
           @ io_error_text (OSError ''[Errno 13] Permission denied'')]\<rparr>)"
    using example_frame_not_empty offline_fault by (rule save_frame_to_file_open_fails)
  moreover have "stdout offline_world = []" "files offline_world = Map.empty"
    by (simp_all add: offline_world_def example_world_def)
  ultimately show ?thesis
    using example_frame_not_empty by (simp add: show_int_0)
qed


section \<open>Effects of the operations\<close>

text \<open>What a returning call of \<^verbatim>\<open>choose_action\<close> may change: the generator and one member.\<close>

lemma choose_action_frame:
  assumes "choose_action st w h l = Inr (a, w')"
  shows "w' = w\<lparr>rng_pos := rng_pos w', member_attrs := (member_attrs w)(a := member_attrs w' a)\<rparr>
         \<and> rng_pos w \<le> rng_pos w'"
proof -
  from choose_action_selected [OF assms] obtain w1 where
    sel: "(if state l \<in> set [NOT_PLAYED, GAME_OVER] then Inr (RESET, w)
          else random_choice w (filter (\<lambda>a. a \<noteq> RESET) (game_actions st))) = Inr (a, w1)"
    by blast
  then have w1: "w1 = w \<or> w1 = w\<lparr>rng_pos := Suc (rng_pos w)\<rparr>"
    by (auto split: if_splits dest: random_choice_result)
  from shape_cases [of st a] show ?thesis
  proof
    assume "is_simple st a"
    from choose_action_simple [OF this sel, of h] assms
    have "w' = set_reasoning w1 a (Text (''RNG told me to pick '' @ action_value st a))"
      by simp
    with w1 show ?thesis by (auto simp: set_reasoning_def)
  next
    assume "is_complex st a"
    from choose_action_complex [OF this sel, of h] assms
    have "w' = set_reasoning
               (w1\<lparr>rng_pos := Suc (Suc (rng_pos w1)),
                   member_attrs := (member_attrs w1)
                     (a := (member_attrs w1 a)
                        \<lparr>action_data := Some (int (rng_draws w1 (rng_pos w1) mod 64),
                                              int (rng_draws w1 (Suc (rng_pos w1)) mod 64))\<rparr>)\<rparr>)
               a
               (Structured [(''desired_action'', action_value st a), (''my_reason'', ''RNG said so!'')])"
      by simp
    with w1 show ?thesis by (auto simp: set_reasoning_def)
  qed
qed

lemma attrs_overwritten:
  "r\<lparr>action_data := d, reasoning := x\<rparr> = \<lparr>reasoning = x, action_data = d\<rparr>"
  by (cases r) simp

text \<open>The state a returning call of \<^verbatim>\<open>choose_action\<close> leaves, in full, and when the call returns.\<close>

lemma choose_action_exact:
  assumes "choose_action st w h l = Inr (a, w')"
  shows "w' =
     (if is_complex st a
      then w\<lparr>rng_pos := rng_pos w + (if state l = NOT_PLAYED \<or> state l = GAME_OVER then 0 else 1) + 2,
             member_attrs := (member_attrs w)
               (a := \<lparr>reasoning = Structured [(''desired_action'', action_value st a),
                                               (''my_reason'', ''RNG said so!'')],
                      action_data = Some
                        (int (rng_draws w (rng_pos w + (if state l = NOT_PLAYED \<or> state l = GAME_OVER then 0 else 1)) mod 64),
                         int (rng_draws w (Suc (rng_pos w + (if state l = NOT_PLAYED \<or> state l = GAME_OVER then 0 else 1))) mod 64))\<rparr>)\<rparr>
      else w\<lparr>rng_pos := rng_pos w + (if state l = NOT_PLAYED \<or> state l = GAME_OVER then 0 else 1),
             member_attrs := (member_attrs w)
               (a := (member_attrs w a)\<lparr>reasoning := Text (''RNG told me to pick '' @ action_value st a)\<rparr>)\<rparr>)"
proof -
  from choose_action_selected [OF assms] obtain w1 where
    sel: "(if state l \<in> set [NOT_PLAYED, GAME_OVER] then Inr (RESET, w)
          else random_choice w (filter (\<lambda>a. a \<noteq> RESET) (game_actions st))) = Inr (a, w1)"
    by blast
  then have w1: "w1 = w\<lparr>rng_pos := rng_pos w + (if state l = NOT_PLAYED \<or> state l = GAME_OVER then 0 else 1)\<rparr>"
    by (auto split: if_splits dest: random_choice_result)
  from shape_cases [of st a] show ?thesis
  proof
    assume s: "is_simple st a"
    then have nc: "\<not> is_complex st a" by (simp add: is_simple_def is_complex_def)
    from choose_action_simple [OF s sel, of h] assms
    have "w' = set_reasoning w1 a (Text (''RNG told me to pick '' @ action_value st a))"
      by simp
    with nc show ?thesis by (simp add: w1 set_reasoning_def)
  next
    assume c: "is_complex st a"
    from choose_action_complex [OF c sel, of h] assms
    have "w' = set_reasoning
               (w1\<lparr>rng_pos := Suc (Suc (rng_pos w1)),
                   member_attrs := (member_attrs w1)
                     (a := (member_attrs w1 a)
                        \<lparr>action_data := Some (int (rng_draws w1 (rng_pos w1) mod 64),
                                              int (rng_draws w1 (Suc (rng_pos w1)) mod 64))\<rparr>)\<rparr>)
               a
               (Structured [(''desired_action'', action_value st a), (''my_reason'', ''RNG said so!'')])"
      by simp
    with c show ?thesis by (simp add: w1 set_reasoning_def attrs_overwritten)
  qed
qed

lemma choose_action_returns:
  assumes "state l = NOT_PLAYED \<or> state l = GAME_OVER
           \<or> filter (\<lambda>a. a \<noteq> RESET) (game_actions st) \<noteq> []"
  shows "\<exists>a w'. choose_action st w h l = Inr (a, w')"
proof (cases "state l = NOT_PLAYED \<or> state l = GAME_OVER")
  case True
  from choose_action_resets [OF this] show ?thesis by blast
next
  case False
  with assms have ne: "filter (\<lambda>a. a \<noteq> RESET) (game_actions st) \<noteq> []" by simp
  then obtain b w1 where
    "random_choice w (filter (\<lambda>a. a \<noteq> RESET) (game_actions st)) = Inr (b, w1)"
    by (auto simp: random_choice_def randbelow_def)
  with False have sel: "(if state l \<in> set [NOT_PLAYED, GAME_OVER] then Inr (RESET, w)
          else random_choice w (filter (\<lambda>a. a \<noteq> RESET) (game_actions st))) = Inr (b, w1)"
    by simp
  from shape_cases [of st b] show ?thesis
  proof
    assume "is_simple st b"
    from choose_action_simple [OF this sel, of h] show ?thesis by blast
  next
    assume "is_complex st b"
    from choose_action_complex [OF this sel, of h] show ?thesis by blast
  qed
qed

text \<open>
  Claim C9, as amended. \<^verbatim>\<open>is_done\<close> never fails and leaves the whole state unchanged.
  \<^verbatim>\<open>choose_action\<close> returns whenever the state of the latest frame is \<^verbatim>\<open>NOT_PLAYED\<close> or
  \<^verbatim>\<open>GAME_OVER\<close> or the enum has a kind other than \<^verbatim>\<open>RESET\<close>. A call that returns leaves
  the frame history, the attributes of the agent, the storage, the output and the clock
  unchanged, and it does write: the process-wide random generator advances by one draw
  for the selection (none in the reset branch) and by two more for a complex kind, and
  the enum member it returns receives the reasoning, a text for a simple kind, and for a
  complex kind the structured reasoning and the payload of the two draws. Nothing else
  changes.
\<close>

theorem decision_engine_effects:
  "(\<exists>b. is_done w h l = Inr (b, w))
   \<and> (state l = NOT_PLAYED \<or> state l = GAME_OVER
        \<or> filter (\<lambda>a. a \<noteq> RESET) (game_actions st) \<noteq> []
      \<longrightarrow> (\<exists>a w'. choose_action st w h l = Inr (a, w')))
   \<and> (\<forall>a w'. choose_action st w h l = Inr (a, w') \<longrightarrow>
         w' = w\<lparr>rng_pos := rng_pos w', member_attrs := (member_attrs w)(a := member_attrs w' a)\<rparr>
       \<and> rng_pos w' = rng_pos w + (if state l = NOT_PLAYED \<or> state l = GAME_OVER then 0 else 1)
                                  + (if is_complex st a then 2 else 0)
       \<and> member_attrs w' a =
           (if is_complex st a
            then \<lparr>reasoning = Structured [(''desired_action'', action_value st a),
                                            (''my_reason'', ''RNG said so!'')],
                  action_data = Some (int (rng_draws w (rng_pos w' - 2) mod 64),
                                      int (rng_draws w (rng_pos w' - 1) mod 64))\<rparr>
            else (member_attrs w a)\<lparr>reasoning := Text (''RNG told me to pick '' @ action_value st a)\<rparr>))"
proof -
  have 1: "\<exists>b. is_done w h l = Inr (b, w)"
    by (simp add: is_done_def)
  have 2: "state l = NOT_PLAYED \<or> state l = GAME_OVER
        \<or> filter (\<lambda>a. a \<noteq> RESET) (game_actions st) \<noteq> []
      \<longrightarrow> (\<exists>a w'. choose_action st w h l = Inr (a, w'))"
    using choose_action_returns by blast
  have 3: "w' = w\<lparr>rng_pos := rng_pos w', member_attrs := (member_attrs w)(a := member_attrs w' a)\<rparr>
       \<and> rng_pos w' = rng_pos w + (if state l = NOT_PLAYED \<or> state l = GAME_OVER then 0 else 1)
                                  + (if is_complex st a then 2 else 0)
       \<and> member_attrs w' a =
           (if is_complex st a
            then \<lparr>reasoning = Structured [(''desired_action'', action_value st a),
                                            (''my_reason'', ''RNG said so!'')],
                  action_data = Some (int (rng_draws w (rng_pos w' - 2) mod 64),
                                      int (rng_draws w (rng_pos w' - 1) mod 64))\<rparr>
            else (member_attrs w a)\<lparr>reasoning := Text (''RNG told me to pick '' @ action_value st a)\<rparr>)"
    if r: "choose_action st w h l = Inr (a, w')" for a w'
  proof (cases "is_complex st a")
    case True
    with choose_action_exact [OF r] show ?thesis by simp
  next
    case False
    with choose_action_exact [OF r] show ?thesis by simp
  qed
  from 1 2 3 show ?thesis by blast
qed

theorem decision_engine_effects_witness:
  "is_done example_world [] (example_frame (IN_PROGRESS 0)) = Inr (False, example_world)
   \<and> filter (\<lambda>a. a \<noteq> RESET) (game_actions example_structs) \<noteq> []
   \<and> choose_action example_structs example_world [] (example_frame (IN_PROGRESS 0))
        = Inr (ACTION 6, example_world_after)
   \<and> is_complex example_structs (ACTION 6)
   \<and> rng_pos example_world = 0 \<and> rng_pos example_world_after = 3
   \<and> member_attrs example_world_after (ACTION 6)
        = \<lparr>reasoning = Structured [(''desired_action'', ''ACTION6''), (''my_reason'', ''RNG said so!'')],
           action_data = Some (37, 9)\<rparr>
   \<and> example_world_after = example_world
        \<lparr>rng_pos := 3,
         member_attrs := (member_attrs example_world)(ACTION 6 := member_attrs example_world_after (ACTION 6))\<rparr>
   \<and> frames example_world_after = frames example_world
   \<and> files example_world_after = files example_world"
proof -
  have c: "is_complex example_structs (ACTION 6)"
    by (simp add: is_complex_def example_structs_def)
  have ne: "filter (\<lambda>a. a \<noteq> RESET) (game_actions example_structs) \<noteq> []"
    by (simp add: example_structs_def)
  have s: "state (example_frame (IN_PROGRESS 0)) = IN_PROGRESS 0"
    by (simp add: example_frame_def)
  have v: "action_value example_structs (ACTION 6) = ''ACTION6''"
    by (simp add: example_structs_def show_nat_small digit_char_def)
  have p0: "rng_pos example_world = 0" and d: "rng_draws example_world = (\<lambda>i. 100 * i + 1)"
    by (simp_all add: example_world_def)
  from decision_engine_effects [of example_world "[]" "example_frame (IN_PROGRESS 0)" example_structs]
    example_choice
  have e: "example_world_after = example_world
        \<lparr>rng_pos := rng_pos example_world_after,
         member_attrs := (member_attrs example_world)(ACTION 6 := member_attrs example_world_after (ACTION 6))\<rparr>
       \<and> rng_pos example_world_after = rng_pos example_world
            + (if state (example_frame (IN_PROGRESS 0)) = NOT_PLAYED
                  \<or> state (example_frame (IN_PROGRESS 0)) = GAME_OVER then 0 else 1)
            + (if is_complex example_structs (ACTION 6) then 2 else 0)
       \<and> member_attrs example_world_after (ACTION 6) =
           (if is_complex example_structs (ACTION 6)
            then \<lparr>reasoning = Structured [(''desired_action'', action_value example_structs (ACTION 6)),
                                            (''my_reason'', ''RNG said so!'')],
                  action_data = Some (int (rng_draws example_world (rng_pos example_world_after - 2) mod 64),
                                      int (rng_draws example_world (rng_pos example_world_after - 1) mod 64))\<rparr>
            else (member_attrs example_world (ACTION 6))
                   \<lparr>reasoning := Text (''RNG told me to pick '' @ action_value example_structs (ACTION 6))\<rparr>)"
    by blast
  then have p3: "rng_pos example_world_after = 3"
    by (simp add: c s p0)
  from e have m: "member_attrs example_world_after (ACTION 6)
        = \<lparr>reasoning = Structured [(''desired_action'', ''ACTION6''), (''my_reason'', ''RNG said so!'')],
           action_data = Some (37, 9)\<rparr>"
    by (simp add: c v p3 d)
  from e have w0: "example_world_after = example_world
        \<lparr>rng_pos := rng_pos example_world_after,
         member_attrs := (member_attrs example_world)(ACTION 6 := member_attrs example_world_after (ACTION 6))\<rparr>"
    by (rule conjunct1)
  have w: "example_world_after = example_world
        \<lparr>rng_pos := 3,
         member_attrs := (member_attrs example_world)(ACTION 6 := member_attrs example_world_after (ACTION 6))\<rparr>"
    using w0 unfolding p3 .
  have i: "is_done example_world [] (example_frame (IN_PROGRESS 0)) = Inr (False, example_world)"
    by (simp add: is_done_def example_frame_def)
  have f: "frames example_world_after = frames example_world"
    "files example_world_after = files example_world"
    by (simp_all add: example_world_after_def)
  from i ne example_choice c p0 p3 m w f show ?thesis by (intro conjI)
qed


text \<open>
  Claim C9 as stated fails for \<^verbatim>\<open>choose_action\<close>: on an in-progress frame the call draws
  three times from the generator of the \<^verbatim>\<open>random\<close> module and writes the payload and the
  reasoning onto the shared enum member, so the state after the call is not the state
  before it.
\<close>

theorem choose_action_changes_state_counterexample:
  "choose_action example_structs example_world [] (example_frame (IN_PROGRESS 0))
     = Inr (ACTION 6, example_world_after)
   \<and> example_world_after \<noteq> example_world
   \<and> rng_pos example_world = 0 \<and> rng_pos example_world_after = 3
   \<and> member_attrs example_world (ACTION 6) = \<lparr>reasoning = NoReasoning, action_data = None\<rparr>
   \<and> member_attrs example_world_after (ACTION 6)
       = \<lparr>reasoning = Structured [(''desired_action'', ''ACTION6''), (''my_reason'', ''RNG said so!'')],
          action_data = Some (37, 9)\<rparr>"
proof -
  have p: "rng_pos example_world = 0" "rng_pos example_world_after = 3"
    by (simp_all add: example_world_after_def example_world_def)
  then have "example_world_after \<noteq> example_world" by auto
  moreover have "member_attrs example_world (ACTION 6) = \<lparr>reasoning = NoReasoning, action_data = None\<rparr>"
    by (simp add: example_world_def)
  moreover have "member_attrs example_world_after (ACTION 6)
       = \<lparr>reasoning = Structured [(''desired_action'', ''ACTION6''), (''my_reason'', ''RNG said so!'')],
          action_data = Some (37, 9)\<rparr>"
    by (simp add: example_world_after_def)
  ultimately show ?thesis using example_choice p by simp
qed

text \<open>
  Claim C8. \<^verbatim>\<open>append_frame\<close> first appends the frame to the history (the parent's
  method) and then calls the recorder once, with that same frame and with the index at
  which the frame now stands, the new length of the history minus one; the call returns
  with the frame in the history whatever the storage does. The two other methods,
  \<^verbatim>\<open>is_done\<close> and \<^verbatim>\<open>choose_action\<close>, write no record and print nothing.
\<close>

theorem append_frame_records_once:
  "append_frame st w f
     = save_frame_to_file st (Agent_append_frame w f) f (int (length (frames (Agent_append_frame w f))) - 1)
   \<and> frames (Agent_append_frame w f) = frames w @ [f]
   \<and> frames (Agent_append_frame w f) ! nat (int (length (frames (Agent_append_frame w f))) - 1) = f
   \<and> (\<exists>w'. append_frame st w f = Inr w' \<and> frames w' = frames w @ [f])
   \<and> (\<forall>b w'. is_done w h l = Inr (b, w') \<longrightarrow> files w' = files w \<and> stdout w' = stdout w)
   \<and> (\<forall>a w'. choose_action st w h l = Inr (a, w') \<longrightarrow> files w' = files w \<and> stdout w' = stdout w)"
proof -
  have 1: "append_frame st w f
     = save_frame_to_file st (Agent_append_frame w f) f (int (length (frames (Agent_append_frame w f))) - 1)"
    by (simp add: append_frame_def Let_def)
  have 2: "frames (Agent_append_frame w f) = frames w @ [f]"
    by (simp add: Agent_append_frame_def)
  have 3: "frames (Agent_append_frame w f) ! nat (int (length (frames (Agent_append_frame w f))) - 1) = f"
    by (simp add: 2)
  from save_frame_to_file_returns [of st "Agent_append_frame w f" f "int (length (frames (Agent_append_frame w f))) - 1"]
  have 4: "\<exists>w'. append_frame st w f = Inr w' \<and> frames w' = frames w @ [f]"
    by (simp add: 1 2)
  have 5: "\<forall>b w'. is_done w h l = Inr (b, w') \<longrightarrow> files w' = files w \<and> stdout w' = stdout w"
    by (simp add: is_done_def)
  have 6: "files w' = files w \<and> stdout w' = stdout w" if "choose_action st w h l = Inr (a, w')" for a w'
  proof -
    from choose_action_frame [OF that]
    have "w' = w\<lparr>rng_pos := rng_pos w', member_attrs := (member_attrs w)(a := member_attrs w' a)\<rparr>"
      by simp
    then have "files w' = files (w\<lparr>rng_pos := rng_pos w', member_attrs := (member_attrs w)(a := member_attrs w' a)\<rparr>)"
      "stdout w' = stdout (w\<lparr>rng_pos := rng_pos w', member_attrs := (member_attrs w)(a := member_attrs w' a)\<rparr>)"
      by simp_all
    then show ?thesis by simp
  qed
  from 1 2 3 4 5 6 show ?thesis by blast
qed

theorem append_frame_records_once_witness:
  "append_frame example_structs example_world (example_frame WIN)
     = Inr (example_world
             \<lparr>frames := [example_frame WIN],
              files := [''frames/ls20/frame_0000_1234.json''
                         \<mapsto> Document (frame_data example_structs (example_frame WIN) 0 1234)],
              stdout := [''Saved frame 0 to frames/ls20/frame_0000_1234.json'']\<rparr>)
   \<and> frames (Agent_append_frame example_world (example_frame WIN)) = [example_frame WIN]
   \<and> int (length (frames (Agent_append_frame example_world (example_frame WIN)))) - 1 = 0"
proof -
  let ?w1 = "example_world\<lparr>frames := [example_frame WIN]\<rparr>"
  have e: "clock_ms example_world = 1234" "files example_world = Map.empty"
    "stdout example_world = []" "frames example_world = []"
    "frames_dir example_world = ''frames/ls20''" "storage_fault example_world = (\<lambda>p. None)"
    by (simp_all add: example_world_def)
  have w1: "Agent_append_frame example_world (example_frame WIN) = ?w1"
    by (simp add: Agent_append_frame_def e)
  have k: "int (length (frames (Agent_append_frame example_world (example_frame WIN)))) - 1 = 0"
    by (simp add: w1)
  have written: "save_frame_to_file example_structs ?w1 (example_frame WIN) 0
     = Inr (?w1\<lparr>files := (files ?w1)(path_join (frames_dir ?w1) (filename 0 (clock_ms ?w1))
                  \<mapsto> Document (frame_data example_structs (example_frame WIN) 0 (clock_ms ?w1))),
            stdout := stdout ?w1 @ [''Saved frame '' @ show_int 0 @ '' to ''
                  @ path_join (frames_dir ?w1) (filename 0 (clock_ms ?w1))]\<rparr>)"
    by (rule save_frame_to_file_written [OF example_frame_not_empty]) (simp add: e)
  from append_frame_records_once [of example_structs example_world "example_frame WIN" "[]" "example_frame WIN"]
  have "append_frame example_structs example_world (example_frame WIN)
     = save_frame_to_file example_structs (Agent_append_frame example_world (example_frame WIN))
         (example_frame WIN)
         (int (length (frames (Agent_append_frame example_world (example_frame WIN)))) - 1)"
    by (rule conjunct1)
  then have "append_frame example_structs example_world (example_frame WIN)
     = save_frame_to_file example_structs ?w1 (example_frame WIN) 0"
    by (simp only: k) (simp only: w1)
  with written show ?thesis
    by (simp add: e example_path show_int_0 w1)
qed


end
